theory Spec2Isabelle
  imports Main "HOL-Library.Word"
begin

unbundle bit_operations_syntax

section \<open>The linear (arena) allocator of LinearAllocator.cpp\<close>

text \<open>
  \<open>size_t\<close> and \<open>uintptr_t\<close> are 64-bit unsigned integers: addition and subtraction
  wrap around, as the C++ operators on these types do. A pointer is the address it
  holds; the null pointer is address 0. The bytes of the backing buffer are not part
  of the state: \<open>memset\<close> and \<open>memmove\<close> write bytes only and leave the four fields of
  the allocator alone, and the properties below are about these fields and about the
  addresses that are handed out.
\<close>

type_synonym size_t = "64 word"
type_synonym uintptr_t = "64 word"

datatype AllocatorError = OutOfMemory | InvalidAlignment | NullPointer | OutOfBounds

record LinearAllocator =
  buf :: uintptr_t
  buf_len :: size_t
  prev_offset :: size_t
  curr_offset :: size_t

definition create :: "uintptr_t \<Rightarrow> size_t \<Rightarrow> LinearAllocator" where
  "create backing_buffer backing_buffer_length =
     \<lparr>buf = backing_buffer, buf_len = backing_buffer_length,
      prev_offset = 0, curr_offset = 0\<rparr>"

definition is_power_of_two :: "uintptr_t \<Rightarrow> bool" where
  "is_power_of_two x \<longleftrightarrow> (x AND (x - 1)) = 0 \<and> x \<noteq> 0"

definition align_forward :: "uintptr_t \<Rightarrow> size_t \<Rightarrow> AllocatorError + uintptr_t" where
  "align_forward ptr align =
     (if \<not> is_power_of_two align then Inl AllocatorError.InvalidAlignment
      else let modulo = ptr AND (align - 1)
           in if modulo \<noteq> 0 then Inr (ptr + (align - modulo)) else Inr ptr)"

definition alloc_align ::
  "size_t \<Rightarrow> size_t \<Rightarrow> LinearAllocator \<Rightarrow> (AllocatorError + uintptr_t) \<times> LinearAllocator" where
  "alloc_align sz align a =
     (case align_forward (buf a + curr_offset a) align of
        Inl e \<Rightarrow> (Inl e, a)
      | Inr p \<Rightarrow>
          let offset = p - buf a
          in if offset + sz \<le> buf_len a
             then (Inr (buf a + offset), a\<lparr>prev_offset := offset, curr_offset := offset + sz\<rparr>)
             else (Inl AllocatorError.OutOfMemory, a))"

text \<open>\<open>DEFAULT_ALIGNMENT = 2 * sizeof(void*)\<close>, with 8-byte pointers.\<close>

definition DEFAULT_ALIGNMENT :: size_t where
  "DEFAULT_ALIGNMENT = 16"

definition alloc :: "size_t \<Rightarrow> LinearAllocator \<Rightarrow> (AllocatorError + uintptr_t) \<times> LinearAllocator" where
  "alloc sz a = alloc_align sz DEFAULT_ALIGNMENT a"

definition resize_align ::
  "uintptr_t \<Rightarrow> size_t \<Rightarrow> size_t \<Rightarrow> size_t \<Rightarrow> LinearAllocator
     \<Rightarrow> (AllocatorError + uintptr_t) \<times> LinearAllocator" where
  "resize_align old_memory old_size new_size align a =
     (if \<not> is_power_of_two align then (Inl AllocatorError.InvalidAlignment, a)
      else if old_memory = 0 \<or> old_size = 0 then alloc_align new_size align a
      else if buf a \<le> old_memory \<and> old_memory < buf a + buf_len a then
        (if buf a + prev_offset a = old_memory then
           (let a' = a\<lparr>curr_offset := prev_offset a + new_size\<rparr>
            in if curr_offset a' > buf_len a' then (Inl AllocatorError.OutOfMemory, a')
               else (Inr old_memory, a'))
         else
           (case alloc_align new_size align a of
              (Inl e, a') \<Rightarrow> (Inl e, a')
            | (Inr new_memory, a') \<Rightarrow> (Inr new_memory, a')))
      else (Inl AllocatorError.OutOfBounds, a))"

definition resize ::
  "uintptr_t \<Rightarrow> size_t \<Rightarrow> size_t \<Rightarrow> LinearAllocator
     \<Rightarrow> (AllocatorError + uintptr_t) \<times> LinearAllocator" where
  "resize old_memory old_size new_size a =
     resize_align old_memory old_size new_size DEFAULT_ALIGNMENT a"

definition free :: "uintptr_t \<Rightarrow> LinearAllocator \<Rightarrow> (AllocatorError + unit) \<times> LinearAllocator" where
  "free ptr a = (Inr (), a)"

definition free_all :: "LinearAllocator \<Rightarrow> LinearAllocator" where
  "free_all a = a\<lparr>curr_offset := 0, prev_offset := 0\<rparr>"

subsection \<open>Temporary scopes\<close>

text \<open>
  A \<open>TempArenaMemory\<close> holds a pointer to its arena and the two saved offsets. The arena
  it points to is passed to \<open>temp_end\<close> as the state that \<open>end()\<close> writes through the
  pointer. (\<open>begin\<close> and \<open>end\<close> are reserved words here, hence the prefix.)
\<close>

record TempArenaMemory =
  temp_prev_offset :: size_t
  temp_curr_offset :: size_t

definition temp_begin :: "LinearAllocator \<Rightarrow> TempArenaMemory" where
  "temp_begin a = \<lparr>temp_prev_offset = prev_offset a, temp_curr_offset = curr_offset a\<rparr>"

definition temp_end :: "TempArenaMemory \<Rightarrow> LinearAllocator \<Rightarrow> LinearAllocator" where
  "temp_end t arena = arena\<lparr>prev_offset := temp_prev_offset t, curr_offset := temp_curr_offset t\<rparr>"

subsection \<open>Sequences of arena operations\<close>

datatype arena_op =
    AllocAlign size_t size_t
  | Alloc size_t
  | ResizeAlign uintptr_t size_t size_t size_t
  | Resize uintptr_t size_t size_t
  | Free uintptr_t
  | FreeAll

fun arena_step :: "arena_op \<Rightarrow> LinearAllocator \<Rightarrow> LinearAllocator" where
  "arena_step (AllocAlign sz al) a = snd (alloc_align sz al a)"
| "arena_step (Alloc sz) a = snd (alloc sz a)"
| "arena_step (ResizeAlign p os ns al) a = snd (resize_align p os ns al a)"
| "arena_step (Resize p os ns) a = snd (resize p os ns a)"
| "arena_step (Free p) a = snd (free p a)"
| "arena_step FreeAll a = free_all a"

fun arena_run :: "arena_op list \<Rightarrow> LinearAllocator \<Rightarrow> LinearAllocator" where
  "arena_run [] a = a"
| "arena_run (x # xs) a = arena_run xs (arena_step x a)"

definition offsets_ordered :: "LinearAllocator \<Rightarrow> bool" where
  "offsets_ordered a \<longleftrightarrow> prev_offset a \<le> curr_offset a \<and> curr_offset a \<le> buf_len a"


section \<open>The growable array of DynArray.tpp\<close>

text \<open>
  The storage block that \<open>data\<close> points to is the list \<open>slots\<close>, one entry per slot of
  the block: \<open>Some v\<close> is a constructed element of value \<open>v\<close>, \<open>None\<close> is raw storage
  (never constructed, destroyed, or moved from). Placement new at index \<open>i\<close> writes
  \<open>Some\<close> into slot \<open>i\<close>, a destructor call writes \<open>None\<close>. A block handed out by
  \<open>malloc\<close> or by the arena starts as raw storage; it is taken to have the slots the
  array asked for and to be disjoint from the block the array holds at that moment.
  Both are so as long as the block of the array holds its capacity (\<open>holds_capacity\<close>
  below) and the byte count of the request does not wrap (\<open>request_fits\<close>).

  \<open>size\<close> and \<open>capacity\<close> are natural numbers. The one product that is formed in
  \<open>size_t\<close> before it is used, \<open>sizeof(T) * new_capacity\<close>, is formed in 64-bit words.
  (\<open>size + 1\<close> cannot wrap: an array does not hold \<open>2^64 - 1\<close> elements.)

  \<open>allocator\<close> is a pointer in the source. An operation of the array reaches no arena
  but this one, so the arena it points to is kept with the array: \<open>None\<close> is the null
  pointer, \<open>Some ar\<close> an arena in state \<open>ar\<close>.

  \<open>heap_freed\<close> and \<open>block_bytes\<close> are not fields of the struct. \<open>heap_freed\<close> is the
  log of the addresses this object has passed to \<open>free()\<close>, oldest first.
  \<open>block_bytes\<close> is the number of bytes that was asked of \<open>malloc\<close> or of the arena for
  the block at \<open>data\<close> (0 for the null pointer).
\<close>

datatype DynArrayError = OutOfMemory | OutOfRange | InvalidCapacity | InvalidSize | EmptyArray

record 'a DynArray =
  data :: uintptr_t
  slots :: "'a option list"
  size_arr :: nat
  capacity :: nat
  allocator :: "LinearAllocator option"
  owns_allocator :: bool
  heap_freed :: "uintptr_t list"
  block_bytes :: size_t

text \<open>
  What an operation takes from its surroundings: \<open>sizeof(T)\<close>, \<open>alignof(T)\<close>, and the
  pointer that \<open>malloc\<close> returns if the operation calls it (0 when it fails). No
  operation calls \<open>malloc\<close> twice.
\<close>

record env =
  sizeof_T :: size_t
  alignof_T :: size_t
  malloc_result :: uintptr_t

text \<open>\<open>GROWTH_FACTOR = 1.5f\<close>, counted in halves.\<close>

definition GROWTH_FACTOR_halves :: nat where
  "GROWTH_FACTOR_halves = 3"

definition DEFAULT_CAPACITY :: nat where
  "DEFAULT_CAPACITY = 8"

subsection \<open>Loops over the slots\<close>

text \<open>\<open>for (i = 0; i < size; ++i) { new (new_data + i) T(std::move(data[i])); data[i].~T(); }\<close>\<close>

function move_elements ::
  "nat \<Rightarrow> nat \<Rightarrow> 'a option list \<Rightarrow> 'a option list \<Rightarrow> 'a option list \<times> 'a option list" where
  "move_elements i n old_data new_data =
     (if i < n
      then move_elements (Suc i) n (old_data[i := None]) (new_data[i := old_data ! i])
      else (old_data, new_data))"
  by pat_completeness auto
termination
  by (relation "measure (\<lambda>(i, n, old_data, new_data). n - i)") auto

text \<open>\<open>for (i = 0; i < other.size; ++i) new (data + i) T(other.data[i]);\<close>\<close>

function copy_elements :: "nat \<Rightarrow> nat \<Rightarrow> 'a option list \<Rightarrow> 'a option list \<Rightarrow> 'a option list" where
  "copy_elements i n other_data d =
     (if i < n then copy_elements (Suc i) n other_data (d[i := other_data ! i]) else d)"
  by pat_completeness auto
termination
  by (relation "measure (\<lambda>(i, n, other_data, d). n - i)") auto

text \<open>\<open>for (i = size; i < count; ++i) new (data + i) T(value);\<close>\<close>

function fill_elements :: "nat \<Rightarrow> nat \<Rightarrow> 'a \<Rightarrow> 'a option list \<Rightarrow> 'a option list" where
  "fill_elements i n v d =
     (if i < n then fill_elements (Suc i) n v (d[i := Some v]) else d)"
  by pat_completeness auto
termination
  by (relation "measure (\<lambda>(i, n, v, d). n - i)") auto

text \<open>\<open>for (i = first; i < last; ++i) data[i].~T();\<close>\<close>

function destroy_elements :: "nat \<Rightarrow> nat \<Rightarrow> 'a option list \<Rightarrow> 'a option list" where
  "destroy_elements i n d =
     (if i < n then destroy_elements (Suc i) n (d[i := None]) else d)"
  by pat_completeness auto
termination
  by (relation "measure (\<lambda>(i, n, d). n - i)") auto

text \<open>\<open>for (i = size; i > position; --i) { new (data + i) T(std::move(data[i - 1])); data[i - 1].~T(); }\<close>\<close>

function shift_right :: "nat \<Rightarrow> nat \<Rightarrow> 'a option list \<Rightarrow> 'a option list" where
  "shift_right i position d =
     (if i > position
      then shift_right (i - 1) position ((d[i := d ! (i - 1)])[i - 1 := None])
      else d)"
  by pat_completeness auto
termination
  by (relation "measure (\<lambda>(i, position, d). i)") auto

text \<open>\<open>for (i = first; i < size - count; ++i) { new (data + i) T(std::move(data[i + count])); data[i + count].~T(); }\<close>\<close>

function shift_left :: "nat \<Rightarrow> nat \<Rightarrow> nat \<Rightarrow> 'a option list \<Rightarrow> 'a option list" where
  "shift_left i n count d =
     (if i < n
      then shift_left (Suc i) n count ((d[i := d ! (i + count)])[i + count := None])
      else d)"
  by pat_completeness auto
termination
  by (relation "measure (\<lambda>(i, n, count, d). n - i)") auto

subsection \<open>Capacity\<close>

definition empty_arr :: "'a DynArray \<Rightarrow> bool" where
  "empty_arr a \<longleftrightarrow> size_arr a = 0"

definition get_size :: "'a DynArray \<Rightarrow> nat" where
  "get_size a = size_arr a"

definition get_capacity :: "'a DynArray \<Rightarrow> nat" where
  "get_capacity a = capacity a"

definition reserve :: "env \<Rightarrow> nat \<Rightarrow> 'a DynArray \<Rightarrow> (DynArrayError + unit) \<times> 'a DynArray" where
  "reserve ev new_capacity a =
     (if new_capacity \<le> capacity a then (Inr (), a)
      else
        (case allocator a of
           Some ar \<Rightarrow>
             (case alloc_align (sizeof_T ev * of_nat new_capacity) (alignof_T ev) ar of
                (Inl e, ar') \<Rightarrow> (Inl OutOfMemory, a\<lparr>allocator := Some ar'\<rparr>)
              | (Inr new_ptr, ar') \<Rightarrow>
                  (let (old_data, new_data) =
                         move_elements 0 (size_arr a) (slots a) (replicate new_capacity None)
                   in (Inr (), a\<lparr>data := new_ptr, slots := new_data, capacity := new_capacity,
                                 allocator := Some ar',
                                 block_bytes := sizeof_T ev * of_nat new_capacity\<rparr>)))
         | None \<Rightarrow>
             (let new_ptr = malloc_result ev
              in if new_ptr = 0 then (Inl OutOfMemory, a)
                 else
                   (let (old_data, new_data) =
                          move_elements 0 (size_arr a) (slots a) (replicate new_capacity None)
                    in (Inr (), a\<lparr>data := new_ptr, slots := new_data, capacity := new_capacity,
                                  heap_freed := (if data a \<noteq> 0 then heap_freed a @ [data a]
                                                 else heap_freed a),
                                  block_bytes := sizeof_T ev * of_nat new_capacity\<rparr>)))))"

text \<open>
  \<open>capacity * GROWTH_FACTOR\<close> multiplies in single precision: \<open>GROWTH_FACTOR\<close> is the
  \<open>float\<close> 1.5, so \<open>capacity\<close> is first converted to \<open>float\<close>. A \<open>float\<close> has 24
  significant bits and the conversion and the product round to nearest, ties to even.
  \<open>round_float\<close> rounds a natural number to 24 significant bits in that way. The
  product \<open>f * 1.5\<close> is \<open>3 * f\<close> halves; rounding does not depend on the unit, so the
  rounded product is \<open>round_float (3 * f)\<close> halves, and the cast back to \<open>size_t\<close>
  drops the odd half. (A product of \<open>2^64\<close> or more has no \<open>size_t\<close> value in C++.)
\<close>

fun float_exponent :: "nat \<Rightarrow> nat" where
  "float_exponent n = (if n < 2 ^ 24 then 0 else Suc (float_exponent (n div 2)))"

definition round_float :: "nat \<Rightarrow> nat" where
  "round_float n =
     (let e = float_exponent n; q = n div 2 ^ e; r = n mod 2 ^ e
      in if 2 * r < 2 ^ e then q * 2 ^ e
         else if 2 * r > 2 ^ e then (q + 1) * 2 ^ e
         else if even q then q * 2 ^ e else (q + 1) * 2 ^ e)"

definition times_GROWTH_FACTOR :: "nat \<Rightarrow> nat" where
  "times_GROWTH_FACTOR cap = round_float (GROWTH_FACTOR_halves * round_float cap) div 2"

definition grow :: "env \<Rightarrow> nat \<Rightarrow> 'a DynArray \<Rightarrow> (DynArrayError + unit) \<times> 'a DynArray" where
  "grow ev min_capacity a =
     (let new_capacity = (if capacity a = 0 then DEFAULT_CAPACITY
                          else times_GROWTH_FACTOR (capacity a) + 1);
          new_capacity = (if new_capacity < min_capacity then min_capacity else new_capacity)
      in reserve ev new_capacity a)"

definition resize_arr ::
  "env \<Rightarrow> nat \<Rightarrow> 'a \<Rightarrow> 'a DynArray \<Rightarrow> (DynArrayError + unit) \<times> 'a DynArray" where
  "resize_arr ev count v a =
     (case (if count > capacity a then reserve ev count a else (Inr (), a)) of
        (Inl e, a') \<Rightarrow> (Inl e, a')
      | (Inr u, a') \<Rightarrow>
          (let d = (if count > size_arr a' then fill_elements (size_arr a') count v (slots a')
                    else if count < size_arr a' then destroy_elements count (size_arr a') (slots a')
                    else slots a')
           in (Inr (), a'\<lparr>slots := d, size_arr := count\<rparr>)))"

definition shrink_to_fit :: "env \<Rightarrow> 'a DynArray \<Rightarrow> (DynArrayError + unit) \<times> 'a DynArray" where
  "shrink_to_fit ev a =
     (if size_arr a = capacity a then (Inr (), a)
      else if size_arr a = 0 then
        (Inr (), a\<lparr>data := 0, slots := [], capacity := 0,
                   heap_freed := (if allocator a = None then heap_freed a @ [data a]
                                  else heap_freed a),
                   block_bytes := 0\<rparr>)
      else
        (case allocator a of
           Some ar \<Rightarrow>
             (case alloc_align (sizeof_T ev * of_nat (size_arr a)) (alignof_T ev) ar of
                (Inl e, ar') \<Rightarrow> (Inl OutOfMemory, a\<lparr>allocator := Some ar'\<rparr>)
              | (Inr new_ptr, ar') \<Rightarrow>
                  (let (old_data, new_data) =
                         move_elements 0 (size_arr a) (slots a) (replicate (size_arr a) None)
                   in (Inr (), a\<lparr>data := new_ptr, slots := new_data, capacity := size_arr a,
                                 allocator := Some ar',
                                 block_bytes := sizeof_T ev * of_nat (size_arr a)\<rparr>)))
         | None \<Rightarrow>
             (let new_ptr = malloc_result ev
              in if new_ptr = 0 then (Inl OutOfMemory, a)
                 else
                   (let (old_data, new_data) =
                          move_elements 0 (size_arr a) (slots a) (replicate (size_arr a) None)
                    in (Inr (), a\<lparr>data := new_ptr, slots := new_data, capacity := size_arr a,
                                  heap_freed := heap_freed a @ [data a],
                                  block_bytes := sizeof_T ev * of_nat (size_arr a)\<rparr>)))))"

definition clear :: "'a DynArray \<Rightarrow> 'a DynArray" where
  "clear a = a\<lparr>slots := destroy_elements 0 (size_arr a) (slots a), size_arr := 0\<rparr>"


subsection \<open>Element access\<close>

text \<open>
  \<open>at\<close>, \<open>front\<close> and \<open>back\<close> return a reference to a slot; the model returns what the
  slot holds.
\<close>

definition at :: "nat \<Rightarrow> 'a DynArray \<Rightarrow> DynArrayError + 'a option" where
  "at index a = (if index \<ge> size_arr a then Inl OutOfRange else Inr (slots a ! index))"

definition front :: "'a DynArray \<Rightarrow> DynArrayError + 'a option" where
  "front a = (if empty_arr a then Inl EmptyArray else Inr (slots a ! 0))"

definition back_arr :: "'a DynArray \<Rightarrow> DynArrayError + 'a option" where
  "back_arr a = (if empty_arr a then Inl EmptyArray else Inr (slots a ! (size_arr a - 1)))"

subsection \<open>Modifiers\<close>

definition push_back :: "env \<Rightarrow> 'a \<Rightarrow> 'a DynArray \<Rightarrow> (DynArrayError + unit) \<times> 'a DynArray" where
  "push_back ev v a =
     (case (if size_arr a \<ge> capacity a then grow ev (size_arr a + 1) a else (Inr (), a)) of
        (Inl e, a') \<Rightarrow> (Inl e, a')
      | (Inr u, a') \<Rightarrow>
          (Inr (), a'\<lparr>slots := (slots a')[size_arr a' := Some v], size_arr := size_arr a' + 1\<rparr>))"

text \<open>
  The rvalue overload differs only in that the new element is move-constructed from
  the argument; the argument is not part of the array's state.
\<close>

definition push_back_move ::
  "env \<Rightarrow> 'a \<Rightarrow> 'a DynArray \<Rightarrow> (DynArrayError + unit) \<times> 'a DynArray" where
  "push_back_move ev v a =
     (case (if size_arr a \<ge> capacity a then grow ev (size_arr a + 1) a else (Inr (), a)) of
        (Inl e, a') \<Rightarrow> (Inl e, a')
      | (Inr u, a') \<Rightarrow>
          (Inr (), a'\<lparr>slots := (slots a')[size_arr a' := Some v], size_arr := size_arr a' + 1\<rparr>))"

definition pop_back :: "'a DynArray \<Rightarrow> (DynArrayError + unit) \<times> 'a DynArray" where
  "pop_back a =
     (if empty_arr a then (Inl EmptyArray, a)
      else (let a' = a\<lparr>size_arr := size_arr a - 1\<rparr>
            in (Inr (), a'\<lparr>slots := (slots a')[size_arr a' := None]\<rparr>)))"

definition insert_arr ::
  "env \<Rightarrow> nat \<Rightarrow> 'a \<Rightarrow> 'a DynArray \<Rightarrow> (DynArrayError + unit) \<times> 'a DynArray" where
  "insert_arr ev position v a =
     (if position > size_arr a then (Inl OutOfRange, a)
      else
        (case (if size_arr a \<ge> capacity a then grow ev (size_arr a + 1) a else (Inr (), a)) of
           (Inl e, a') \<Rightarrow> (Inl e, a')
         | (Inr u, a') \<Rightarrow>
             (let d = (if position < size_arr a' then shift_right (size_arr a') position (slots a')
                       else slots a')
              in (Inr (), a'\<lparr>slots := d[position := Some v], size_arr := size_arr a' + 1\<rparr>))))"

definition erase_range :: "nat \<Rightarrow> nat \<Rightarrow> 'a DynArray \<Rightarrow> (DynArrayError + unit) \<times> 'a DynArray" where
  "erase_range first_pos last_pos a =
     (if first_pos \<ge> size_arr a \<or> last_pos > size_arr a \<or> first_pos > last_pos
      then (Inl OutOfRange, a)
      else if first_pos = last_pos then (Inr (), a)
      else
        (let count = last_pos - first_pos;
             d = destroy_elements first_pos last_pos (slots a);
             d = shift_left first_pos (size_arr a - count) count d
         in (Inr (), a\<lparr>slots := d, size_arr := size_arr a - count\<rparr>)))"

text \<open>\<open>position + 1\<close> is a \<open>size_t\<close> sum: it wraps to 0 at the largest \<open>size_t\<close>.\<close>

definition erase :: "nat \<Rightarrow> 'a DynArray \<Rightarrow> (DynArrayError + unit) \<times> 'a DynArray" where
  "erase position a = erase_range position ((position + 1) mod 2 ^ 64) a"

subsection \<open>Construction, copy and move\<close>

text \<open>
  A constructor that fails its \<open>assert\<close> aborts the program: the model returns \<open>None\<close>
  and there is no array.
\<close>

definition init_members :: "LinearAllocator option \<Rightarrow> bool \<Rightarrow> 'a DynArray" where
  "init_members al take_ownership =
     \<lparr>data = 0, slots = [], size_arr = 0, capacity = 0, allocator = al,
      owns_allocator = take_ownership, heap_freed = [],
            block_bytes = 0\<rparr>"

definition DynArray_default :: "env \<Rightarrow> 'a DynArray option" where
  "DynArray_default ev =
     (case reserve ev DEFAULT_CAPACITY (init_members None False) of
        (Inl e, a) \<Rightarrow> None
      | (Inr u, a) \<Rightarrow> Some a)"

definition DynArray_capacity :: "env \<Rightarrow> nat \<Rightarrow> 'a DynArray option" where
  "DynArray_capacity ev initial_capacity =
     (case reserve ev initial_capacity (init_members None False) of
        (Inl e, a) \<Rightarrow> None
      | (Inr u, a) \<Rightarrow> Some a)"

text \<open>The results of the \<open>push_back\<close> calls are dropped, as in the source.\<close>

fun push_back_all :: "env \<Rightarrow> 'a list \<Rightarrow> 'a DynArray \<Rightarrow> 'a DynArray" where
  "push_back_all ev [] a = a"
| "push_back_all ev (element # elements) a = push_back_all ev elements (snd (push_back ev element a))"

definition DynArray_list :: "env \<Rightarrow> 'a list \<Rightarrow> 'a DynArray option" where
  "DynArray_list ev elements =
     (case reserve ev (length elements) (init_members None False) of
        (Inl e, a) \<Rightarrow> None
      | (Inr u, a) \<Rightarrow> Some (push_back_all ev elements a))"

definition DynArray_alloc :: "env \<Rightarrow> LinearAllocator \<Rightarrow> bool \<Rightarrow> 'a DynArray option" where
  "DynArray_alloc ev al take_ownership =
     (case reserve ev DEFAULT_CAPACITY (init_members (Some al) take_ownership) of
        (Inl e, a) \<Rightarrow> None
      | (Inr u, a) \<Rightarrow> Some a)"

definition DynArray_capacity_alloc ::
  "env \<Rightarrow> nat \<Rightarrow> LinearAllocator \<Rightarrow> bool \<Rightarrow> 'a DynArray option" where
  "DynArray_capacity_alloc ev initial_capacity al take_ownership =
     (case reserve ev initial_capacity (init_members (Some al) take_ownership) of
        (Inl e, a) \<Rightarrow> None
      | (Inr u, a) \<Rightarrow> Some a)"

definition DynArray_copy :: "env \<Rightarrow> 'a DynArray \<Rightarrow> 'a DynArray option" where
  "DynArray_copy ev other =
     (case reserve ev (capacity other) (init_members None False) of
        (Inl e, a) \<Rightarrow> None
      | (Inr u, a) \<Rightarrow>
          Some (a\<lparr>slots := copy_elements 0 (size_arr other) (slots other) (slots a),
                  size_arr := size_arr other\<rparr>))"

text \<open>The move constructor returns the new object and what is left of the source.\<close>

definition DynArray_move :: "'a DynArray \<Rightarrow> 'a DynArray \<times> 'a DynArray" where
  "DynArray_move other =
     (\<lparr>data = data other, slots = slots other, size_arr = size_arr other,
       capacity = capacity other, allocator = allocator other,
       owns_allocator = owns_allocator other, heap_freed = [],
            block_bytes = block_bytes other\<rparr>,
      other\<lparr>data := 0, slots := [], size_arr := 0, capacity := 0, allocator := None,
            owns_allocator := False, block_bytes := 0\<rparr>)"

text \<open>
  \<open>same_object\<close> is the outcome of the test \<open>this == &other\<close>, which compares the
  addresses of the two objects.
\<close>

definition copy_assign :: "env \<Rightarrow> bool \<Rightarrow> 'a DynArray \<Rightarrow> 'a DynArray \<Rightarrow> 'a DynArray option" where
  "copy_assign ev same_object other this =
     (if \<not> same_object then
        (case reserve ev (capacity other) (clear this) of
           (Inl e, a) \<Rightarrow> None
         | (Inr u, a) \<Rightarrow>
             Some (a\<lparr>slots := copy_elements 0 (size_arr other) (slots other) (slots a),
                     size_arr := size_arr other\<rparr>))
      else Some this)"

text \<open>
  Move assignment returns the assigned object and what is left of the source. With an
  arena attached the old block is not handed to \<open>free()\<close>; an owned arena object is
  deleted, which leaves nothing behind in this state.
\<close>

definition move_assign :: "bool \<Rightarrow> 'a DynArray \<Rightarrow> 'a DynArray \<Rightarrow> 'a DynArray \<times> 'a DynArray" where
  "move_assign same_object other this =
     (if \<not> same_object then
        (let c = clear this;
             log = (if allocator c = None then heap_freed c @ [data c] else heap_freed c)
         in (\<lparr>data = data other, slots = slots other, size_arr = size_arr other,
              capacity = capacity other, allocator = allocator other,
              owns_allocator = owns_allocator other, heap_freed = log,
            block_bytes = block_bytes other\<rparr>,
             other\<lparr>data := 0, slots := [], size_arr := 0, capacity := 0, allocator := None,
                   owns_allocator := False, block_bytes := 0\<rparr>))
      else (this, other))"

subsection \<open>Sequences of array operations\<close>

datatype 'a array_op =
    At nat
  | Front
  | Back
  | Reserve nat
  | ResizeTo nat 'a
  | ShrinkToFit
  | Clear
  | PushBack 'a
  | PushBackMove 'a
  | PopBack
  | InsertAt nat 'a
  | Erase nat
  | EraseRange nat nat

text \<open>The error an operation returns, if it returns one, and the array it leaves.\<close>

definition error_of :: "'e + 'r \<Rightarrow> 'e option" where
  "error_of r = (case r of Inl e \<Rightarrow> Some e | Inr v \<Rightarrow> None)"

fun array_step :: "env \<Rightarrow> 'a array_op \<Rightarrow> 'a DynArray \<Rightarrow> DynArrayError option \<times> 'a DynArray" where
  "array_step ev (At index) a = (error_of (at index a), a)"
| "array_step ev Front a = (error_of (front a), a)"
| "array_step ev Back a = (error_of (back_arr a), a)"
| "array_step ev (Reserve n) a = (let (r, a') = reserve ev n a in (error_of r, a'))"
| "array_step ev (ResizeTo n v) a = (let (r, a') = resize_arr ev n v a in (error_of r, a'))"
| "array_step ev ShrinkToFit a = (let (r, a') = shrink_to_fit ev a in (error_of r, a'))"
| "array_step ev Clear a = (None, clear a)"
| "array_step ev (PushBack v) a = (let (r, a') = push_back ev v a in (error_of r, a'))"
| "array_step ev (PushBackMove v) a = (let (r, a') = push_back_move ev v a in (error_of r, a'))"
| "array_step ev PopBack a = (let (r, a') = pop_back a in (error_of r, a'))"
| "array_step ev (InsertAt position v) a = (let (r, a') = insert_arr ev position v a in (error_of r, a'))"
| "array_step ev (Erase position) a = (let (r, a') = erase position a in (error_of r, a'))"
| "array_step ev (EraseRange first_pos last_pos) a =
     (let (r, a') = erase_range first_pos last_pos a in (error_of r, a'))"

text \<open>
  The arrays a program can hold: built by a constructor, then changed by any operation
  of the array or by copy or move from another such array. An attached arena is used
  through the array only.
\<close>

inductive reachable :: "'a DynArray \<Rightarrow> bool" where
  r_default: "DynArray_default ev = Some a \<Longrightarrow> reachable a"
| r_capacity: "DynArray_capacity ev n = Some a \<Longrightarrow> reachable a"
| r_list: "DynArray_list ev elements = Some a \<Longrightarrow> reachable a"
| r_alloc: "DynArray_alloc ev al own = Some a \<Longrightarrow> reachable a"
| r_capacity_alloc: "DynArray_capacity_alloc ev n al own = Some a \<Longrightarrow> reachable a"
| r_copy: "reachable other \<Longrightarrow> DynArray_copy ev other = Some a \<Longrightarrow> reachable a"
| r_move_new: "reachable other \<Longrightarrow> reachable (fst (DynArray_move other))"
| r_move_old: "reachable other \<Longrightarrow> reachable (snd (DynArray_move other))"
| r_copy_assign: "reachable other \<Longrightarrow> reachable this \<Longrightarrow>
     copy_assign ev False other this = Some a \<Longrightarrow> reachable a"
| r_move_assign_new: "reachable other \<Longrightarrow> reachable this \<Longrightarrow>
     reachable (fst (move_assign False other this))"
| r_move_assign_old: "reachable other \<Longrightarrow> reachable this \<Longrightarrow>
     reachable (snd (move_assign False other this))"
| r_step: "reachable a \<Longrightarrow> reachable (snd (array_step ev x a))"

text \<open>The invariant of the array: the block has \<open>capacity\<close> slots and \<open>size \<le> capacity\<close>.\<close>

definition wf :: "'a DynArray \<Rightarrow> bool" where
  "wf a \<longleftrightarrow> size_arr a \<le> capacity a \<and> length (slots a) = capacity a"

text \<open>The live elements, in order: the slots below \<open>size\<close>.\<close>

definition live :: "'a DynArray \<Rightarrow> 'a option list" where
  "live a = take (size_arr a) (slots a)"



subsection \<open>Concrete inputs\<close>

text \<open>
  Elements of four bytes. \<open>env_ok\<close> and \<open>env_ok2\<close> are calls in which \<open>malloc\<close> succeeds,
  \<open>env_fail\<close> one in which it returns the null pointer.
\<close>

definition env_ok :: env where
  "env_ok = \<lparr>sizeof_T = 4, alignof_T = 4, malloc_result = 4096\<rparr>"

definition env_ok2 :: env where
  "env_ok2 = \<lparr>sizeof_T = 4, alignof_T = 4, malloc_result = 8192\<rparr>"

definition env_fail :: env where
  "env_fail = \<lparr>sizeof_T = 4, alignof_T = 4, malloc_result = 0\<rparr>"

text \<open>The empty array of capacity 3, and the same array holding 10 and 20.\<close>

definition arr3 :: "int DynArray" where
  "arr3 = \<lparr>data = 4096, slots = [None, None, None], size_arr = 0, capacity = 3,
           allocator = None, owns_allocator = False, heap_freed = [],
            block_bytes = 12\<rparr>"

definition arr3_two :: "int DynArray" where
  "arr3_two = \<lparr>data = 4096, slots = [Some 10, Some 20, None], size_arr = 2, capacity = 3,
               allocator = None, owns_allocator = False, heap_freed = [],
            block_bytes = 12\<rparr>"

text \<open>Appending 10, 20, 30 and 40 to the empty array of capacity 3.\<close>

definition after1 :: "int DynArray" where
  "after1 = snd (push_back env_ok2 10 arr3)"

definition after2 :: "int DynArray" where
  "after2 = snd (push_back env_ok2 20 after1)"

definition after3 :: "int DynArray" where
  "after3 = snd (push_back env_ok2 30 after2)"

definition after4 :: "int DynArray" where
  "after4 = snd (push_back env_ok2 40 after3)"

text \<open>An array with the default capacity, and an empty one of capacity \<open>2^24 + 1\<close>.\<close>

definition arr8 :: "int DynArray" where
  "arr8 = \<lparr>data = 4096, slots = replicate 8 None, size_arr = 0, capacity = 8,
           allocator = None, owns_allocator = False, heap_freed = [],
            block_bytes = 32\<rparr>"


text \<open>The array \<open>arr3_two\<close> in an arena of 64 bytes, and in one of 12 bytes.\<close>

definition arr3_arena :: "int DynArray" where
  "arr3_arena = \<lparr>data = 4096, slots = [Some 10, Some 20, None], size_arr = 2, capacity = 3,
                 allocator = Some \<lparr>buf = 4096, buf_len = 64, prev_offset = 0, curr_offset = 12\<rparr>,
                 owns_allocator = False, heap_freed = [],
            block_bytes = 12\<rparr>"

definition arr3_arena_full :: "int DynArray" where
  "arr3_arena_full = \<lparr>data = 4096, slots = [Some 10, Some 20, None], size_arr = 2, capacity = 3,
                 allocator = Some \<lparr>buf = 4096, buf_len = 12, prev_offset = 0, curr_offset = 12\<rparr>,
                 owns_allocator = False, heap_freed = [],
            block_bytes = 12\<rparr>"


declare move_elements.simps [simp del] copy_elements.simps [simp del]
  fill_elements.simps [simp del] destroy_elements.simps [simp del]
  shift_right.simps [simp del] shift_left.simps [simp del] float_exponent.simps [simp del]

section \<open>Properties of the arena\<close>

lemma alloc_align_error_unchanged:
  "alloc_align sz al ar = (Inl e, ar') \<Longrightarrow> ar' = ar"
  by (auto simp: alloc_align_def Let_def split: sum.splits if_splits)

lemma arena_step_buffer:
  "buf (arena_step x a) = buf a \<and> buf_len (arena_step x a) = buf_len a"
  by (cases x)
     (auto simp: alloc_def resize_def resize_align_def alloc_align_def free_def free_all_def
                 Let_def split: sum.splits prod.splits if_splits)

lemma arena_run_buffer:
  "buf (arena_run xs a) = buf a \<and> buf_len (arena_run xs a) = buf_len a"
  by (induction xs arbitrary: a) (simp_all add: arena_step_buffer)

text \<open>
  C1. The claim: after every arena operation, also one that returns an error,
  \<open>prev_offset \<le> curr_offset \<le> buf_len\<close>; in particular a \<open>resize_align\<close> that fails
  with \<open>OutOfMemory\<close> leaves \<open>curr_offset \<le> buf_len\<close>. The in-place branch of
  \<open>resize_align\<close> stores the new \<open>curr_offset\<close> before it compares it with \<open>buf_len\<close>:
  over a 16-byte buffer at address 4096, after \<open>alloc_align(10, 1)\<close> (which keeps the
  offsets ordered), growing that block to 20 bytes returns \<open>OutOfMemory\<close> and leaves
  \<open>curr_offset = 20\<close>, past the end of the buffer.
\<close>

theorem resize_align_failure_moves_curr_offset_past_buf_len:
  "offsets_ordered (arena_run [AllocAlign 10 1] (create 4096 16)) \<and>
   resize_align 4096 10 20 1 (arena_run [AllocAlign 10 1] (create 4096 16)) =
     (Inl AllocatorError.OutOfMemory,
      \<lparr>buf = 4096, buf_len = 16, prev_offset = 0, curr_offset = 20\<rparr>) \<and>
   buf_len (arena_run [AllocAlign 10 1, ResizeAlign 4096 10 20 1] (create 4096 16))
     < curr_offset (arena_run [AllocAlign 10 1, ResizeAlign 4096 10 20 1] (create 4096 16))"
  by (simp add: offsets_ordered_def resize_align_def alloc_align_def align_forward_def
                is_power_of_two_def create_def Let_def)

text \<open>
  The sum \<open>offset + size\<close> in \<open>alloc_align\<close> is a \<open>size_t\<close> sum as well: a request of
  \<open>2^64 - 4\<close> bytes at offset 8 wraps to 4, passes the test against \<open>buf_len\<close>, and
  leaves \<open>curr_offset\<close> below \<open>prev_offset\<close>.
\<close>

lemma alloc_align_size_wraps:
  "alloc_align (- 4) 1 (arena_run [AllocAlign 8 1] (create 4096 16)) =
     (Inr 4104, \<lparr>buf = 4096, buf_len = 16, prev_offset = 8, curr_offset = 4\<rparr>)"
  by (simp add: alloc_align_def align_forward_def is_power_of_two_def create_def Let_def)

text \<open>
  C6, as stated: after \<open>free_all()\<close> the next allocation of \<open>buf_len\<close> bytes succeeds and
  returns the base address, for every base address. It fails for \<open>alloc\<close> over a
  32-byte buffer at the odd address 4097: the default alignment moves the first block
  to offset 15, and 15 + 32 bytes do not fit.
\<close>

theorem alloc_whole_buffer_fails_at_unaligned_base:
  "fst (alloc 32 (free_all (create 4097 32))) = Inl AllocatorError.OutOfMemory"
  by (simp add: alloc_def DEFAULT_ALIGNMENT_def alloc_align_def align_forward_def
                is_power_of_two_def create_def free_all_def Let_def)

text \<open>
  C6, amended: for every arena over a buffer of length \<open>L\<close> whose base address is a
  multiple of the alignment \<open>al\<close> of the allocation (16 for \<open>alloc\<close>), whatever operations
  were performed before, after \<open>free_all()\<close> both offsets are 0 and the next allocation
  of \<open>L\<close> bytes succeeds and returns the base address.
\<close>

theorem free_all_then_alloc_whole_buffer:
  assumes "is_power_of_two al" and "base AND (al - 1) = 0"
  shows "prev_offset (free_all (arena_run ops (create base L))) = 0 \<and>
         curr_offset (free_all (arena_run ops (create base L))) = 0 \<and>
         fst (alloc_align L al (free_all (arena_run ops (create base L)))) = Inr base \<and>
         (al = DEFAULT_ALIGNMENT \<longrightarrow>
            fst (alloc L (free_all (arena_run ops (create base L)))) = Inr base)"
proof -
  let ?a = "arena_run ops (create base L)"
  have b: "buf ?a = base" "buf_len ?a = L"
    by (simp_all add: arena_run_buffer create_def)
  have "fst (alloc_align L al (free_all ?a)) = Inr base"
    using assms b by (simp add: alloc_align_def align_forward_def free_all_def Let_def)
  then show ?thesis
    by (auto simp: free_all_def alloc_def)
qed

theorem free_all_then_alloc_whole_buffer_witness:
  "is_power_of_two 16 \<and> (4096 :: uintptr_t) AND (16 - 1) = 0 \<and>
   curr_offset (free_all (arena_run [AllocAlign 10 1] (create 4096 32))) = 0 \<and>
   fst (alloc 32 (free_all (arena_run [AllocAlign 10 1] (create 4096 32)))) = Inr 4096"
  using free_all_then_alloc_whole_buffer [of 16 4096 "[AllocAlign 10 1]" 32]
  by (simp add: is_power_of_two_def DEFAULT_ALIGNMENT_def)

text \<open>
  C7. For every arena state \<open>a\<close>: after \<open>t = begin(a)\<close> and any sequence of arena
  operations that starts with an allocation of \<open>sz\<close> bytes at alignment \<open>al\<close>, \<open>t.end()\<close>
  puts \<open>prev_offset\<close> and \<open>curr_offset\<close> back to their values at \<open>begin\<close>; a second
  \<open>t.end()\<close> changes nothing; and the same allocation made right after \<open>end()\<close> returns
  what the one inside the scope returned.
\<close>

theorem temp_end_restores_offsets:
  "prev_offset (temp_end (temp_begin a) (arena_run (AllocAlign sz al # ops) a)) = prev_offset a \<and>
   curr_offset (temp_end (temp_begin a) (arena_run (AllocAlign sz al # ops) a)) = curr_offset a \<and>
   temp_end (temp_begin a) (temp_end (temp_begin a) (arena_run (AllocAlign sz al # ops) a)) =
     temp_end (temp_begin a) (arena_run (AllocAlign sz al # ops) a) \<and>
   fst (alloc_align sz al (temp_end (temp_begin a) (arena_run (AllocAlign sz al # ops) a))) =
     fst (alloc_align sz al a)"
proof -
  let ?a1 = "arena_run (AllocAlign sz al # ops) a"
  have "buf ?a1 = buf a" "buf_len ?a1 = buf_len a"
    by (simp_all only: arena_run_buffer)
  then have "temp_end (temp_begin a) ?a1 = a"
    by (simp add: temp_end_def temp_begin_def)
  then show ?thesis
    by (simp add: temp_end_def temp_begin_def)
qed


section \<open>Properties of the growable array\<close>

subsection \<open>The loops\<close>

lemma move_elements_length:
  "length (snd (move_elements i n old_data new_data)) = length new_data"
  by (induction i n old_data new_data rule: move_elements.induct)
     (subst move_elements.simps, simp)

lemma move_elements_nth:
  "j < length new_data \<Longrightarrow>
   snd (move_elements i n old_data new_data) ! j =
     (if i \<le> j \<and> j < n then old_data ! j else new_data ! j)"
proof (induction i n old_data new_data rule: move_elements.induct)
  case (1 i n old_data new_data)
  show ?case
  proof (cases "i < n")
    case True
    have "snd (move_elements i n old_data new_data) ! j =
          snd (move_elements (Suc i) n (old_data[i := None]) (new_data[i := old_data ! i])) ! j"
      using True by (subst move_elements.simps) simp
    also have "\<dots> = (if Suc i \<le> j \<and> j < n then old_data[i := None] ! j
                       else new_data[i := old_data ! i] ! j)"
      using 1 True by simp
    also have "\<dots> = (if i \<le> j \<and> j < n then old_data ! j else new_data ! j)"
      using True 1(2) by (cases "j = i") auto
    finally show ?thesis .
  next
    case False
    then show ?thesis by (subst move_elements.simps) auto
  qed
qed

lemma copy_elements_length: "length (copy_elements i n src d) = length d"
  by (induction i n src d rule: copy_elements.induct)
     (subst copy_elements.simps, simp)

lemma copy_elements_nth:
  "j < length d \<Longrightarrow>
   copy_elements i n src d ! j = (if i \<le> j \<and> j < n then src ! j else d ! j)"
proof (induction i n src d rule: copy_elements.induct)
  case (1 i n src d)
  show ?case
  proof (cases "i < n")
    case True
    have "copy_elements i n src d ! j = copy_elements (Suc i) n src (d[i := src ! i]) ! j"
      using True by (subst copy_elements.simps) simp
    also have "\<dots> = (if Suc i \<le> j \<and> j < n then src ! j else d[i := src ! i] ! j)"
      using 1 True by simp
    also have "\<dots> = (if i \<le> j \<and> j < n then src ! j else d ! j)"
      using True 1(2) by (cases "j = i") auto
    finally show ?thesis .
  next
    case False
    then show ?thesis by (subst copy_elements.simps) auto
  qed
qed

lemma fill_elements_length: "length (fill_elements i n v d) = length d"
  by (induction i n v d rule: fill_elements.induct)
     (subst fill_elements.simps, simp)

lemma destroy_elements_length: "length (destroy_elements i n d) = length d"
  by (induction i n d rule: destroy_elements.induct)
     (subst destroy_elements.simps, simp)

lemma shift_right_length: "length (shift_right i p d) = length d"
  by (induction i p d rule: shift_right.induct)
     (subst shift_right.simps, simp)

lemma shift_left_length: "length (shift_left i n c d) = length d"
  by (induction i n c d rule: shift_left.induct)
     (subst shift_left.simps, simp)

text \<open>The slots that the move loop fills, and the ones it leaves raw.\<close>

lemma move_elements_take:
  assumes "n \<le> length old_data" and "n \<le> m"
  shows "take n (snd (move_elements 0 n old_data (replicate m None))) = take n old_data"
  using assms by (intro nth_equalityI) (simp_all add: move_elements_length move_elements_nth)


lemma copy_elements_take:
  assumes "n \<le> length src" and "n \<le> length d"
  shows "take n (copy_elements 0 n src d) = take n src"
  using assms by (intro nth_equalityI) (simp_all add: copy_elements_length copy_elements_nth)

subsection \<open>Failure leaves the array alone\<close>

lemma reserve_error:
  "reserve ev n a = (Inl e, a') \<Longrightarrow> e = OutOfMemory \<and> a' = a"
  by (auto simp: reserve_def Let_def split: if_splits option.splits prod.splits sum.splits
           dest: alloc_align_error_unchanged)

lemma grow_error:
  "grow ev n a = (Inl e, a') \<Longrightarrow> e = OutOfMemory \<and> a' = a"
  unfolding grow_def Let_def by (rule reserve_error)

lemma resize_arr_error:
  "resize_arr ev n v a = (Inl e, a') \<Longrightarrow> e = OutOfMemory \<and> a' = a"
  by (auto simp: resize_arr_def Let_def split: if_splits prod.splits sum.splits
           dest: reserve_error)

lemma shrink_to_fit_error:
  "shrink_to_fit ev a = (Inl e, a') \<Longrightarrow> e = OutOfMemory \<and> a' = a"
  by (auto simp: shrink_to_fit_def Let_def split: if_splits option.splits prod.splits sum.splits
           dest: alloc_align_error_unchanged)

lemma push_back_error:
  "push_back ev v a = (Inl e, a') \<Longrightarrow> e = OutOfMemory \<and> a' = a"
  by (auto simp: push_back_def split: if_splits prod.splits sum.splits dest: grow_error)

lemma push_back_move_eq: "push_back_move ev v a = push_back ev v a"
  by (simp add: push_back_move_def push_back_def)

lemma pop_back_error:
  "pop_back a = (Inl e, a') \<Longrightarrow> e = EmptyArray \<and> a' = a"
  by (auto simp: pop_back_def Let_def split: if_splits)

lemma insert_arr_error:
  "insert_arr ev p v a = (Inl e, a') \<Longrightarrow> (e = OutOfMemory \<or> e = OutOfRange) \<and> a' = a"
  by (auto simp: insert_arr_def Let_def split: if_splits prod.splits sum.splits dest: grow_error)

lemma erase_range_error:
  "erase_range f l a = (Inl e, a') \<Longrightarrow> e = OutOfRange \<and> a' = a"
  by (auto simp: erase_range_def Let_def split: if_splits)

lemma array_step_error:
  assumes h: "array_step ev x a = (Some e, a')"
  shows "(e = OutOfMemory \<or> e = OutOfRange \<or> e = EmptyArray) \<and> a' = a"
proof (cases x)
  case (At i)
  with h show ?thesis
    by (auto simp: at_def error_of_def split: if_splits)
next
  case Front
  with h show ?thesis by (auto simp: front_def error_of_def split: if_splits)
next
  case Back
  with h show ?thesis by (auto simp: back_arr_def error_of_def split: if_splits)
next
  case (Reserve n)
  with h show ?thesis
    by (auto simp: error_of_def split: prod.splits sum.splits dest: reserve_error)
next
  case (ResizeTo n v)
  with h show ?thesis
    by (auto simp: error_of_def split: prod.splits sum.splits dest: resize_arr_error)
next
  case ShrinkToFit
  with h show ?thesis
    by (auto simp: error_of_def split: prod.splits sum.splits dest: shrink_to_fit_error)
next
  case Clear
  with h show ?thesis by simp
next
  case (PushBack v)
  with h show ?thesis
    by (auto simp: error_of_def split: prod.splits sum.splits dest: push_back_error)
next
  case (PushBackMove v)
  with h show ?thesis
    by (auto simp: error_of_def push_back_move_eq split: prod.splits sum.splits dest: push_back_error)
next
  case PopBack
  with h show ?thesis
    by (auto simp: error_of_def split: prod.splits sum.splits dest: pop_back_error)
next
  case (InsertAt p v)
  with h show ?thesis
    by (auto simp: error_of_def split: prod.splits sum.splits dest: insert_arr_error)
next
  case (Erase p)
  with h show ?thesis
    by (auto simp: error_of_def erase_def split: prod.splits sum.splits dest: erase_range_error)
next
  case (EraseRange f l)
  with h show ?thesis
    by (auto simp: error_of_def split: prod.splits sum.splits dest: erase_range_error)
qed


subsection \<open>What a successful reserve does\<close>

lemma reserve_noop: "n \<le> capacity a \<Longrightarrow> reserve ev n a = (Inr (), a)"
  by (simp add: reserve_def)

lemma reserve_success:
  assumes "reserve ev n a = (Inr u, a')" and "capacity a < n"
  shows "slots a' = snd (move_elements 0 (size_arr a) (slots a) (replicate n None))"
    and "capacity a' = n"
    and "size_arr a' = size_arr a"
    and "owns_allocator a' = owns_allocator a"
    and "block_bytes a' = sizeof_T ev * of_nat n"
  using assms
  by (auto simp: reserve_def Let_def split: if_splits option.splits prod.splits sum.splits)



lemma reserve_live:
  assumes "reserve ev n a = (Inr u, a')" and "wf a"
  shows "live a' = live a \<and> size_arr a' = size_arr a \<and> n \<le> capacity a' \<and> wf a'"
proof (cases "n \<le> capacity a")
  case True
  with assms show ?thesis by (simp add: reserve_noop)
next
  case False
  then have c: "capacity a < n" by simp
  note s = reserve_success [OF assms(1) c]
  have le: "size_arr a \<le> length (slots a)" "size_arr a \<le> n"
    using assms(2) c by (simp_all add: wf_def)
  have "take (size_arr a) (slots a') = take (size_arr a) (slots a)"
    unfolding s(1) using le by (rule move_elements_take)
  then show ?thesis
    using s le by (simp add: live_def wf_def move_elements_length)
qed

lemma reserve_wf:
  assumes "wf a"
  shows "wf (snd (reserve ev n a))"
proof (cases "reserve ev n a")
  case (Pair r a')
  show ?thesis
  proof (cases r)
    case (Inl e)
    with Pair assms show ?thesis by (auto dest: reserve_error)
  next
    case (Inr u)
    with Pair assms show ?thesis by (auto dest: reserve_live)
  qed
qed

lemma reserve_wf_pair: "wf a \<Longrightarrow> reserve ev n a = (r, a') \<Longrightarrow> wf a'"
  using reserve_wf [of a ev n] by simp

lemma grow_live:
  assumes "grow ev k a = (Inr u, a')" and "wf a"
  shows "live a' = live a \<and> size_arr a' = size_arr a \<and> k \<le> capacity a' \<and> wf a'"
proof -
  obtain nc where nc: "grow ev k a = reserve ev nc a" "k \<le> nc"
    by (auto simp: grow_def Let_def)
  with assms reserve_live [of ev nc a u a'] show ?thesis by auto
qed

lemma grow_wf: "wf a \<Longrightarrow> wf (snd (grow ev k a))"
  unfolding grow_def Let_def by (rule reserve_wf)

subsection \<open>The invariant\<close>

lemma clear_wf: "wf a \<Longrightarrow> wf (clear a)"
  by (simp add: wf_def clear_def destroy_elements_length)

lemma push_back_wf:
  assumes "wf a"
  shows "wf (snd (push_back ev v a))"
proof (cases "size_arr a \<ge> capacity a")
  case False
  with assms show ?thesis by (simp add: push_back_def wf_def)
next
  case True
  show ?thesis
  proof (cases "grow ev (size_arr a + 1) a")
    case (Pair r a')
    show ?thesis
    proof (cases r)
      case (Inl e)
      with Pair True assms show ?thesis by (auto simp: push_back_def dest: grow_error)
    next
      case (Inr u)
      with Pair have "size_arr a' = size_arr a \<and> size_arr a + 1 \<le> capacity a' \<and> wf a'"
        using grow_live [of ev "size_arr a + 1" a u a'] assms by simp
      with Pair Inr True show ?thesis by (simp add: push_back_def wf_def)
    qed
  qed
qed

lemma pop_back_wf: "wf a \<Longrightarrow> wf (snd (pop_back a))"
  by (auto simp: pop_back_def wf_def Let_def)

lemma insert_arr_wf:
  assumes "wf a"
  shows "wf (snd (insert_arr ev p v a))"
proof (cases "p > size_arr a")
  case True
  with assms show ?thesis by (simp add: insert_arr_def)
next
  case p: False
  show ?thesis
  proof (cases "size_arr a \<ge> capacity a")
    case False
    with p assms show ?thesis by (simp add: insert_arr_def wf_def shift_right_length Let_def)
  next
    case True
    show ?thesis
    proof (cases "grow ev (size_arr a + 1) a")
      case (Pair r a')
      show ?thesis
      proof (cases r)
        case (Inl e)
        with Pair True p assms show ?thesis by (auto simp: insert_arr_def dest: grow_error)
      next
        case (Inr u)
        with Pair have "size_arr a' = size_arr a \<and> size_arr a + 1 \<le> capacity a' \<and> wf a'"
          using grow_live [of ev "size_arr a + 1" a u a'] assms by simp
        with Pair Inr True p show ?thesis
          by (simp add: insert_arr_def wf_def shift_right_length Let_def)
      qed
    qed
  qed
qed

lemma erase_range_wf: "wf a \<Longrightarrow> wf (snd (erase_range f l a))"
  by (auto simp: erase_range_def wf_def Let_def shift_left_length destroy_elements_length)

lemma resize_arr_wf:
  assumes "wf a"
  shows "wf (snd (resize_arr ev n v a))"
proof (cases "n > capacity a")
  case False
  with assms show ?thesis
    by (simp add: resize_arr_def wf_def Let_def fill_elements_length destroy_elements_length)
next
  case True
  show ?thesis
  proof (cases "reserve ev n a")
    case (Pair r a')
    show ?thesis
    proof (cases r)
      case (Inl e)
      with Pair True assms show ?thesis by (auto simp: resize_arr_def dest: reserve_error)
    next
      case (Inr u)
      with Pair have "n \<le> capacity a' \<and> wf a'"
        using reserve_live [of ev n a u a'] assms by simp
      with Pair Inr True show ?thesis
        by (simp add: resize_arr_def wf_def Let_def fill_elements_length destroy_elements_length)
    qed
  qed
qed

lemma move_elements_length_pair:
  "move_elements i n old_data new_data = (x, y) \<Longrightarrow> length y = length new_data"
  using move_elements_length [of i n old_data new_data] by simp

lemma shrink_to_fit_wf: "wf a \<Longrightarrow> wf (snd (shrink_to_fit ev a))"
  by (auto simp: shrink_to_fit_def wf_def Let_def
           split: option.splits prod.splits sum.splits dest: move_elements_length_pair)

lemma array_step_wf: "wf a \<Longrightarrow> wf (snd (array_step ev x a))"
  by (cases x)
     (simp_all add: split_beta reserve_wf resize_arr_wf shrink_to_fit_wf clear_wf push_back_wf
        push_back_move_eq pop_back_wf insert_arr_wf erase_def erase_range_wf)

lemma init_members_wf: "wf (init_members al own)"
  by (simp add: wf_def init_members_def)

lemma push_back_all_wf: "wf a \<Longrightarrow> wf (push_back_all ev xs a)"
  by (induction xs arbitrary: a) (simp_all add: push_back_wf)

lemma constructed_wf:
  "DynArray_default ev = Some a \<Longrightarrow> wf a"
  "DynArray_capacity ev n = Some a \<Longrightarrow> wf a"
  "DynArray_list ev xs = Some a \<Longrightarrow> wf a"
  "DynArray_alloc ev al own = Some a \<Longrightarrow> wf a"
  "DynArray_capacity_alloc ev n al own = Some a \<Longrightarrow> wf a"
  by (auto simp: DynArray_default_def DynArray_capacity_def DynArray_list_def DynArray_alloc_def
        DynArray_capacity_alloc_def push_back_all_wf init_members_wf
        split: prod.splits sum.splits dest!: reserve_wf_pair [OF init_members_wf])

subsection \<open>Copies, reachable arrays, and append followed by removal\<close>

lemma copy_into:
  assumes "wf other" and "wf a0" and "capacity other \<le> capacity a0"
  shows "wf (a0\<lparr>slots := copy_elements 0 (size_arr other) (slots other) (slots a0),
                size_arr := size_arr other\<rparr>) \<and>
         live (a0\<lparr>slots := copy_elements 0 (size_arr other) (slots other) (slots a0),
                  size_arr := size_arr other\<rparr>) = live other"
  using assms by (simp add: wf_def live_def copy_elements_length copy_elements_take)

lemma DynArray_copy_result:
  assumes "DynArray_copy ev other = Some a" and "wf other"
  shows "wf a \<and> live a = live other \<and> size_arr a = size_arr other \<and>
         capacity a = capacity other"
proof -
  from assms(1) obtain u a0 where
    r: "reserve ev (capacity other) (init_members None False) = (Inr u, a0)" and
    a: "a = a0\<lparr>slots := copy_elements 0 (size_arr other) (slots other) (slots a0),
               size_arr := size_arr other\<rparr>"
    by (auto simp: DynArray_copy_def split: prod.splits sum.splits)
  have w0: "wf a0" "capacity other \<le> capacity a0"
    using reserve_live [OF r init_members_wf] by simp_all
  have "capacity a0 = capacity other"
  proof (cases "capacity other = 0")
    case True
    with r show ?thesis by (auto simp: reserve_noop init_members_def)
  next
    case False
    then show ?thesis
      using reserve_success(2) [OF r] by (simp add: init_members_def)
  qed
  then show ?thesis
    using copy_into [OF assms(2) w0] by (simp add: a)
qed

lemma copy_assign_result:
  assumes "copy_assign ev False other this = Some a" and "wf other" and "wf this"
  shows "wf a \<and> live a = live other \<and> size_arr a = size_arr other \<and>
         capacity a = max (capacity this) (capacity other)"
proof -
  from assms(1) obtain u a0 where
    r: "reserve ev (capacity other) (clear this) = (Inr u, a0)" and
    a: "a = a0\<lparr>slots := copy_elements 0 (size_arr other) (slots other) (slots a0),
               size_arr := size_arr other\<rparr>"
    by (auto simp: copy_assign_def split: prod.splits sum.splits)
  have w0: "wf a0" "capacity other \<le> capacity a0"
    using reserve_live [OF r clear_wf [OF assms(3)]] by simp_all
  have "capacity a0 = max (capacity this) (capacity other)"
  proof (cases "capacity other \<le> capacity this")
    case True
    with r show ?thesis by (auto simp: reserve_noop clear_def)
  next
    case False
    then show ?thesis
      using reserve_success(2) [OF r] by (simp add: clear_def)
  qed
  then show ?thesis
    using copy_into [OF assms(2) w0] by (simp add: a)
qed

lemma reserve_heap_succeeds:
  "allocator a = None \<Longrightarrow> malloc_result ev \<noteq> 0 \<Longrightarrow> \<exists>a'. reserve ev n a = (Inr (), a')"
  by (simp add: reserve_def Let_def split_beta)

lemma move_wf:
  "wf other \<Longrightarrow> wf (fst (DynArray_move other)) \<and> wf (snd (DynArray_move other))"
  "wf other \<Longrightarrow> wf this \<Longrightarrow>
     wf (fst (move_assign s other this)) \<and> wf (snd (move_assign s other this))"
  by (simp_all add: DynArray_move_def move_assign_def wf_def Let_def)

lemma reachable_wf: "reachable a \<Longrightarrow> wf a"
proof (induction rule: reachable.induct)
  case (r_copy other ev a)
  then show ?case using DynArray_copy_result by blast
next
  case (r_copy_assign other this ev a)
  then show ?case using copy_assign_result by blast
qed (simp_all add: constructed_wf move_wf array_step_wf)

lemma push_back_success:
  assumes "push_back ev v a = (Inr u, a1)" and "wf a"
  shows "\<exists>a'. live a' = live a \<and> size_arr a' = size_arr a \<and> size_arr a < capacity a' \<and>
              wf a' \<and>
              a1 = a'\<lparr>slots := (slots a')[size_arr a' := Some v], size_arr := size_arr a' + 1\<rparr>"
proof (cases "size_arr a \<ge> capacity a")
  case False
  with assms show ?thesis by (auto simp: push_back_def)
next
  case True
  with assms(1) obtain u' a' where
    g: "grow ev (size_arr a + 1) a = (Inr u', a')" and
    a1: "a1 = a'\<lparr>slots := (slots a')[size_arr a' := Some v], size_arr := size_arr a' + 1\<rparr>"
    by (auto simp: push_back_def split: prod.splits sum.splits)
  from grow_live [OF g assms(2)] a1 show ?thesis by auto
qed

lemma push_pop:
  assumes "push_back ev v a = (Inr u, a1)" and "wf a"
  shows "fst (pop_back a1) = Inr () \<and> size_arr (snd (pop_back a1)) = size_arr a \<and>
         live (snd (pop_back a1)) = live a"
proof -
  from push_back_success [OF assms] obtain a' where
    a': "live a' = live a" "size_arr a' = size_arr a" and
    a1: "a1 = a'\<lparr>slots := (slots a')[size_arr a' := Some v], size_arr := size_arr a' + 1\<rparr>"
    by blast
  show ?thesis
    using a' by (simp add: a1 pop_back_def empty_arr_def Let_def live_def)
qed

subsection \<open>Evaluating the concrete inputs\<close>

lemma replicate_numeral: "replicate (numeral k) x = x # replicate (pred_numeral k) x"
  by (simp add: numeral_eq_Suc)

lemma list_update_numeral: "(x # xs)[numeral k := y] = x # xs[pred_numeral k := y]"
  by (simp add: numeral_eq_Suc)

lemmas eval_lists = replicate_numeral list_update_numeral

lemmas eval_defs = push_back_def grow_def reserve_def DEFAULT_CAPACITY_def
  times_GROWTH_FACTOR_def GROWTH_FACTOR_halves_def round_float_def float_exponent.simps
  move_elements.simps env_ok_def env_ok2_def env_fail_def Let_def


lemma arr3_constructed: "DynArray_capacity env_ok 3 = Some arr3"
  by (simp add: DynArray_capacity_def init_members_def arr3_def eval_defs eval_lists)

lemma arr8_constructed: "DynArray_default env_ok = Some arr8"
  by (simp add: DynArray_default_def init_members_def arr8_def eval_defs)

lemma after1_eq:
  "push_back env_ok2 10 arr3 = (Inr (), after1) \<and>
   after1 = \<lparr>data = 4096, slots = [Some 10, None, None], size_arr = 1, capacity = 3,
             allocator = None, owns_allocator = False, heap_freed = [],
            block_bytes = 12\<rparr>"
  by (simp add: after1_def arr3_def eval_defs)

lemma after2_eq:
  "push_back env_ok2 20 after1 = (Inr (), after2) \<and>
   after2 = \<lparr>data = 4096, slots = [Some 10, Some 20, None], size_arr = 2, capacity = 3,
             allocator = None, owns_allocator = False, heap_freed = [],
            block_bytes = 12\<rparr>"
  by (simp add: after2_def after1_eq eval_defs)

lemma after3_eq:
  "push_back env_ok2 30 after2 = (Inr (), after3) \<and>
   after3 = \<lparr>data = 4096, slots = [Some 10, Some 20, Some 30], size_arr = 3, capacity = 3,
             allocator = None, owns_allocator = False, heap_freed = [],
            block_bytes = 12\<rparr>"
  by (simp add: after3_def after2_eq eval_defs eval_lists)

lemma after4_eq:
  "push_back env_ok2 40 after3 = (Inr (), after4) \<and>
   after4 = \<lparr>data = 8192, slots = [Some 10, Some 20, Some 30, Some 40, None], size_arr = 4,
             capacity = 5, allocator = None, owns_allocator = False, heap_freed = [4096],
            block_bytes = 20\<rparr>"
  by (simp add: after4_def after3_eq eval_defs eval_lists)

lemma after2_is_arr3_two: "after2 = arr3_two"
  by (simp add: after2_eq arr3_two_def)

lemma reachable_after3: "reachable arr3 \<and> reachable arr3_two \<and> reachable after3"
proof -
  have r0: "reachable arr3"
    using arr3_constructed by (rule r_capacity)
  have "reachable (snd (array_step env_ok2 (PushBack 10) arr3))"
    using r0 by (rule r_step)
  then have r1: "reachable after1" by (simp add: after1_def split_beta)
  have "reachable (snd (array_step env_ok2 (PushBack 20) after1))"
    using r1 by (rule r_step)
  then have r2: "reachable after2" by (simp add: after2_def split_beta)
  have "reachable (snd (array_step env_ok2 (PushBack 30) after2))"
    using r2 by (rule r_step)
  then have r3: "reachable after3" by (simp add: after3_def split_beta)
  from r0 r2 r3 show ?thesis by (simp add: after2_is_arr3_two)
qed

lemma wf_examples: "wf arr3 \<and> wf arr3_two \<and> wf arr8 \<and> wf arr3_arena \<and> wf arr3_arena_full"
  by (simp add: wf_def arr3_def arr3_two_def arr8_def arr3_arena_def arr3_arena_full_def)

subsection \<open>The claims about the array\<close>

text \<open>
  C9. Every operation of the array that returns an error leaves the array as it was:
  \<open>data\<close>, \<open>size\<close>, \<open>capacity\<close>, every slot, and the attached arena. This covers
  \<open>at\<close>/\<open>front\<close>/\<open>back\<close> returning \<open>OutOfRange\<close> or \<open>EmptyArray\<close>, \<open>pop_back\<close> returning
  \<open>EmptyArray\<close>, \<open>insert\<close> and \<open>erase_range\<close> returning \<open>OutOfRange\<close>, and the operations
  that return \<open>OutOfMemory\<close>.
\<close>

theorem error_leaves_array_unchanged:
  assumes "array_step ev x a = (Some e, a')"
  shows "a' = a"
  using array_step_error [OF assms] by simp

theorem error_leaves_array_unchanged_witness:
  "array_step env_ok PopBack arr3 = (Some EmptyArray, arr3) \<and>
   array_step env_ok (InsertAt 3 7) arr3_two = (Some OutOfRange, arr3_two) \<and>
   array_step env_ok (EraseRange 1 3) arr3_two = (Some OutOfRange, arr3_two)"
proof -
  have h1: "array_step env_ok PopBack arr3 =
              (Some EmptyArray, snd (array_step env_ok PopBack arr3))"
    by (simp add: pop_back_def empty_arr_def arr3_def error_of_def)
  have h2: "array_step env_ok (InsertAt 3 7) arr3_two =
              (Some OutOfRange, snd (array_step env_ok (InsertAt 3 7) arr3_two))"
    by (simp add: insert_arr_def arr3_two_def error_of_def)
  have h3: "array_step env_ok (EraseRange 1 3) arr3_two =
              (Some OutOfRange, snd (array_step env_ok (EraseRange 1 3) arr3_two))"
    by (simp add: erase_range_def arr3_two_def error_of_def)
  show ?thesis
    using h1 h2 h3 error_leaves_array_unchanged [OF h1] error_leaves_array_unchanged [OF h2]
      error_leaves_array_unchanged [OF h3]
    by simp
qed

text \<open>
  C4, as stated: no operation of the array produces \<open>InvalidSize\<close> or \<open>EmptyArray\<close>. The
  array of capacity 3 that the constructor builds is empty, and \<open>pop_back\<close>, \<open>front\<close> and
  \<open>back\<close> return \<open>EmptyArray\<close> on it.
\<close>

theorem empty_array_error_is_produced:
  "DynArray_capacity env_ok 3 = Some arr3 \<and>
   fst (pop_back arr3) = Inl EmptyArray \<and>
   front arr3 = Inl EmptyArray \<and>
   back_arr arr3 = Inl EmptyArray"
  by (simp add: DynArray_capacity_def reserve_def init_members_def env_ok_def arr3_def
                move_elements.simps numeral_3_eq_3 pop_back_def front_def back_arr_def
                empty_arr_def)

text \<open>
  C4, amended: no operation of the array produces \<open>InvalidCapacity\<close> or \<open>InvalidSize\<close>;
  every error an operation returns is one of \<open>OutOfMemory\<close>, \<open>OutOfRange\<close> and
  \<open>EmptyArray\<close>.
\<close>

theorem errors_produced:
  assumes "array_step ev x a = (Some e, a')"
  shows "(e = OutOfMemory \<or> e = OutOfRange \<or> e = EmptyArray) \<and>
         e \<noteq> InvalidCapacity \<and> e \<noteq> InvalidSize"
  using array_step_error [OF assms] by auto

theorem errors_produced_witness:
  "array_step env_ok (At 5) arr3_two = (Some OutOfRange, arr3_two) \<and>
   array_step env_fail (Reserve 4) arr3_two = (Some OutOfMemory, arr3_two) \<and>
   array_step env_ok Front arr3 = (Some EmptyArray, arr3)"
proof -
  have h1: "array_step env_ok (At 5) arr3_two = (Some OutOfRange, arr3_two)"
    by (simp add: at_def arr3_two_def error_of_def)
  have h2: "array_step env_fail (Reserve 4) arr3_two = (Some OutOfMemory, arr3_two)"
    by (simp add: reserve_def env_fail_def arr3_two_def error_of_def)
  have h3: "array_step env_ok Front arr3 = (Some EmptyArray, arr3)"
    by (simp add: front_def empty_arr_def arr3_def error_of_def)
  show ?thesis
    using h1 h2 h3 errors_produced [OF h1] errors_produced [OF h2] errors_produced [OF h3]
    by simp
qed

text \<open>
  C10. \<open>erase_range(first, last)\<close> with \<open>first = last\<close> succeeds and changes nothing
  when \<open>first < size\<close>, and fails with \<open>OutOfRange\<close> when \<open>first = last = size\<close>, although
  that range is empty as well.
\<close>

theorem erase_range_empty_range:
  "(first_pos < size_arr a \<longrightarrow> erase_range first_pos first_pos a = (Inr (), a)) \<and>
   (first_pos = size_arr a \<longrightarrow> erase_range first_pos first_pos a = (Inl OutOfRange, a))"
  by (simp add: erase_range_def)

theorem erase_range_empty_range_witness:
  "(1 :: nat) < size_arr arr3_two \<and> erase_range 1 1 arr3_two = (Inr (), arr3_two) \<and>
   2 = size_arr arr3_two \<and> erase_range 2 2 arr3_two = (Inl OutOfRange, arr3_two)"
  using erase_range_empty_range [of 1 arr3_two] erase_range_empty_range [of 2 arr3_two]
  by (simp add: arr3_two_def)


text \<open>
  C8. For every reachable array and every value \<open>x\<close>: if \<open>push_back(x)\<close> (either
  overload) succeeds, the \<open>pop_back()\<close> that follows succeeds, the size is the one before
  the \<open>push_back\<close>, and the slots that were live before it hold what they held.
\<close>

theorem push_back_then_pop_back:
  assumes "reachable a"
  shows "(\<forall>a1. push_back ev x a = (Inr (), a1) \<longrightarrow>
            fst (pop_back a1) = Inr () \<and> size_arr (snd (pop_back a1)) = size_arr a \<and>
            live (snd (pop_back a1)) = live a) \<and>
         (\<forall>a1. push_back_move ev x a = (Inr (), a1) \<longrightarrow>
            fst (pop_back a1) = Inr () \<and> size_arr (snd (pop_back a1)) = size_arr a \<and>
            live (snd (pop_back a1)) = live a)"
  using push_pop [OF _ reachable_wf [OF assms]] by (simp add: push_back_move_eq)

theorem push_back_then_pop_back_witness:
  "reachable after3 \<and> push_back env_ok2 40 after3 = (Inr (), after4) \<and>
   live after3 = [Some 10, Some 20, Some 30] \<and> capacity after4 = 5 \<and>
   fst (pop_back after4) = Inr () \<and> size_arr (snd (pop_back after4)) = 3 \<and>
   live (snd (pop_back after4)) = [Some 10, Some 20, Some 30]"
proof -
  have r: "reachable after3" by (simp add: reachable_after3)
  have l: "live after3 = [Some 10, Some 20, Some 30]" "size_arr after3 = 3"
    "capacity after4 = 5"
    by (simp_all add: live_def after3_eq after4_eq)
  show ?thesis
    using push_back_then_pop_back [OF r, of env_ok2 40] r l after4_eq by simp
qed





lemma DynArray_copy_succeeds: "malloc_result ev \<noteq> 0 \<Longrightarrow> DynArray_copy ev s \<noteq> None"
  by (simp add: DynArray_copy_def reserve_def init_members_def Let_def split_beta)

lemma copy_assign_succeeds:
  "malloc_result ev \<noteq> 0 \<Longrightarrow> allocator this = None \<Longrightarrow>
     copy_assign ev False s this \<noteq> None"
  by (simp add: copy_assign_def reserve_def clear_def Let_def split_beta)

text \<open>
  C2, as stated: copy assignment leaves the destination with exactly the capacity of
  the source, also when the destination had more. Assigning the array \<open>arr3_two\<close>
  (capacity 3, holding 10 and 20) to the default-constructed array \<open>arr8\<close> leaves
  capacity 8.
\<close>

theorem copy_assign_keeps_larger_capacity:
  "DynArray_default env_ok = Some arr8 \<and> capacity arr3_two = 3 \<and>
   copy_assign env_ok2 False arr3_two arr8 =
     Some \<lparr>data = 4096, slots = [Some 10, Some 20, None, None, None, None, None, None],
           size_arr = 2, capacity = 8, allocator = None, owns_allocator = False,
           heap_freed = [],
            block_bytes = 32\<rparr>"
  by (simp add: DynArray_default_def init_members_def arr8_def arr3_two_def copy_assign_def
        clear_def destroy_elements.simps copy_elements.simps eval_defs eval_lists)

text \<open>
  C2, amended: for every source array \<open>s\<close>, copy construction from \<open>s\<close> and copy
  assignment from \<open>s\<close>, when their allocation succeeds, yield an array whose live
  elements are those of \<open>s\<close> in order and whose size is that of \<open>s\<close>. The capacity of a
  copy-constructed array is exactly the capacity of \<open>s\<close>; the capacity after a copy
  assignment is the larger of the capacity of \<open>s\<close> and the capacity the destination
  had. Assignment of an array to itself changes nothing. With \<open>malloc\<close> succeeding, the
  copy constructor yields an array, and so does copy assignment to an array without
  an arena.
\<close>

theorem copy_contract:
  assumes "wf s" and "wf this"
  shows "(\<forall>a. DynArray_copy ev s = Some a \<longrightarrow>
            live a = live s \<and> size_arr a = size_arr s \<and> capacity a = capacity s) \<and>
         (\<forall>a. copy_assign ev False s this = Some a \<longrightarrow>
            live a = live s \<and> size_arr a = size_arr s \<and>
            capacity a = max (capacity this) (capacity s)) \<and>
         copy_assign ev True this this = Some this \<and>
         (malloc_result ev \<noteq> 0 \<longrightarrow> DynArray_copy ev s \<noteq> None) \<and>
         (malloc_result ev \<noteq> 0 \<and> allocator this = None \<longrightarrow>
            copy_assign ev False s this \<noteq> None)"
proof (intro conjI allI impI)
  fix a
  assume "DynArray_copy ev s = Some a"
  from DynArray_copy_result [OF this assms(1)]
  show "live a = live s" "size_arr a = size_arr s" "capacity a = capacity s" by simp_all
next
  fix a
  assume "copy_assign ev False s this = Some a"
  from copy_assign_result [OF this assms]
  show "live a = live s" "size_arr a = size_arr s"
    "capacity a = max (capacity this) (capacity s)" by simp_all
next
  show "copy_assign ev True this this = Some this" by (simp add: copy_assign_def)
next
  assume "malloc_result ev \<noteq> 0"
  then show "DynArray_copy ev s \<noteq> None" by (rule DynArray_copy_succeeds)
next
  assume "malloc_result ev \<noteq> 0 \<and> allocator this = None"
  then show "copy_assign ev False s this \<noteq> None" by (simp add: copy_assign_succeeds)
qed

theorem copy_contract_witness:
  "wf arr3_two \<and> wf arr8 \<and>
   DynArray_copy env_ok2 arr3_two =
     Some \<lparr>data = 8192, slots = [Some 10, Some 20, None], size_arr = 2, capacity = 3,
           allocator = None, owns_allocator = False, heap_freed = [],
            block_bytes = 12\<rparr> \<and>
   capacity arr3_two = 3 \<and> live arr3_two = [Some 10, Some 20] \<and>
   map_option live (copy_assign env_ok2 False arr3_two arr8) = Some [Some 10, Some 20] \<and>
   map_option capacity (copy_assign env_ok2 False arr3_two arr8) = Some 8 \<and>
   max (capacity arr8) (capacity arr3_two) = 8"
proof -
  have w: "wf arr3_two" "wf arr8" by (simp_all add: wf_examples)
  have e1: "DynArray_copy env_ok2 arr3_two =
     Some \<lparr>data = 8192, slots = [Some 10, Some 20, None], size_arr = 2, capacity = 3,
           allocator = None, owns_allocator = False, heap_freed = [],
            block_bytes = 12\<rparr>"
    by (simp add: DynArray_copy_def init_members_def arr3_two_def copy_elements.simps
          eval_defs eval_lists)
  have m: "malloc_result env_ok2 \<noteq> 0 \<and> allocator arr8 = None"
    by (simp add: env_ok2_def arr8_def)
  note t = copy_contract [OF w, of env_ok2]
  from t [THEN conjunct2, THEN conjunct2, THEN conjunct2, THEN conjunct2, THEN mp, OF m]
  obtain a where a: "copy_assign env_ok2 False arr3_two arr8 = Some a" by blast
  note ta = t [THEN conjunct2, THEN conjunct1, THEN spec, THEN mp, OF a]
  have v: "capacity arr3_two = 3" "live arr3_two = [Some 10, Some 20]" "capacity arr8 = 8"
    by (simp_all add: arr3_two_def arr8_def live_def)
  show ?thesis
    using w e1 v a ta by simp
qed




end
